theory Spec2Isabelle
  imports Complex_Main
begin

section \<open>Array elements\<close>

text \<open>
  The arrays of \<^verbatim>\<open>utils.py\<close> hold double-precision numbers. An element is modelled as
  an exact real number, one of the two infinities, or the missing-value sentinel NaN.
  The four operations follow IEEE 754 on the special values and are exact on finite
  ones: rounding, overflow and the sign of zero are not part of the model. The
  properties of \<open>zScore\<close> and \<open>moving_average\<close> are therefore stated through the
  operations themselves (which value is computed from which) and through facts that
  rounding leaves alone: NaN propagates, a sum of squares is not negative, a difference
  of equal numbers is zero. Sums of exact reals appear only in lemmas on the way.
\<close>

datatype fl = Fin real | PInf | MInf | NaN

fun is_nan :: "fl \<Rightarrow> bool" where
  "is_nan NaN = True"
| "is_nan _ = False"

fun is_fin :: "fl \<Rightarrow> bool" where
  "is_fin (Fin _) = True"
| "is_fin _ = False"

fun fneg :: "fl \<Rightarrow> fl" where
  "fneg (Fin a) = Fin (- a)"
| "fneg PInf = MInf"
| "fneg MInf = PInf"
| "fneg NaN = NaN"

fun fadd :: "fl \<Rightarrow> fl \<Rightarrow> fl" where
  "fadd (Fin a) (Fin b) = Fin (a + b)"
| "fadd NaN _ = NaN"
| "fadd _ NaN = NaN"
| "fadd PInf MInf = NaN"
| "fadd MInf PInf = NaN"
| "fadd PInf _ = PInf"
| "fadd _ PInf = PInf"
| "fadd MInf _ = MInf"
| "fadd _ MInf = MInf"

definition fsub :: "fl \<Rightarrow> fl \<Rightarrow> fl" where
  "fsub x y = fadd x (fneg y)"

fun fmul :: "fl \<Rightarrow> fl \<Rightarrow> fl" where
  "fmul (Fin a) (Fin b) = Fin (a * b)"
| "fmul NaN _ = NaN"
| "fmul _ NaN = NaN"
| "fmul PInf (Fin b) = (if b = 0 then NaN else if 0 < b then PInf else MInf)"
| "fmul MInf (Fin b) = (if b = 0 then NaN else if 0 < b then MInf else PInf)"
| "fmul (Fin a) PInf = (if a = 0 then NaN else if 0 < a then PInf else MInf)"
| "fmul (Fin a) MInf = (if a = 0 then NaN else if 0 < a then MInf else PInf)"
| "fmul PInf PInf = PInf"
| "fmul MInf MInf = PInf"
| "fmul PInf MInf = MInf"
| "fmul MInf PInf = MInf"

fun fdiv :: "fl \<Rightarrow> fl \<Rightarrow> fl" where
  "fdiv (Fin a) (Fin b) =
     (if b = 0 then (if a = 0 then NaN else if 0 < a then PInf else MInf)
      else Fin (a / b))"
| "fdiv NaN _ = NaN"
| "fdiv _ NaN = NaN"
| "fdiv (Fin a) _ = Fin 0"
| "fdiv PInf (Fin b) = (if 0 \<le> b then PInf else MInf)"
| "fdiv MInf (Fin b) = (if 0 \<le> b then MInf else PInf)"
| "fdiv _ _ = NaN"

fun fsqrt :: "fl \<Rightarrow> fl" where
  "fsqrt (Fin a) = (if a < 0 then NaN else Fin (sqrt a))"
| "fsqrt PInf = PInf"
| "fsqrt MInf = NaN"
| "fsqrt NaN = NaN"

text \<open>The sum of a sequence, accumulated from zero.\<close>

definition fsum :: "fl list \<Rightarrow> fl" where
  "fsum xs = foldl fadd (Fin 0) xs"

section \<open>Arrays\<close>

text \<open>
  An N-dimensional array is its shape and its elements in row-major (C) order. A
  well-formed array has as many elements as its shape says.
\<close>

record ndarray =
  shape :: "nat list"
  data :: "fl list"

definition wf :: "ndarray \<Rightarrow> bool" where
  "wf X = (length (data X) = prod_list (shape X))"

text \<open>
  Modelled from the spec: the data frame and its \<^verbatim>\<open>to_numpy\<close> belong to pandas, which
  is not part of the repository. A frame is a table of rows under named columns;
  \<^verbatim>\<open>to_numpy\<close> gives the plain 2-D array of its cells, one row after the other, and
  drops the labels. In a rectangular frame every row has one cell for each column.
\<close>

record dataframe =
  columns :: "string list"
  rows :: "fl list list"

definition to_numpy :: "dataframe \<Rightarrow> ndarray" where
  "to_numpy df = \<lparr>shape = [length (rows df), length (columns df)], data = concat (rows df)\<rparr>"

definition rectangular :: "dataframe \<Rightarrow> bool" where
  "rectangular df = list_all (\<lambda>r. length r = length (columns df)) (rows df)"

datatype series = Array ndarray | DataFrame dataframe

datatype error = AxisError | ValueError

section \<open>Reduction along an axis\<close>

text \<open>
  The axis of a reduction over an array with \<open>ndim\<close> dimensions is an integer from
  \<open>- ndim\<close> to \<open>ndim - 1\<close>, a negative one counting from the last axis; any other
  raises \<^verbatim>\<open>AxisError\<close>. A reduction over a 0-dimensional array takes the axes \<open>0\<close>
  and \<open>-1\<close> as well, and reduces the one element of the array.
\<close>

definition normalize_axis_index :: "int \<Rightarrow> nat \<Rightarrow> error + nat" where
  "normalize_axis_index axis ndim =
     (if ndim = 0 then (if axis = 0 \<or> axis = - 1 then Inr 0 else Inl AxisError)
      else if - int ndim \<le> axis \<and> axis < int ndim
      then Inr (nat (if axis < 0 then axis + int ndim else axis))
      else Inl AxisError)"

text \<open>
  Seen from axis \<open>d\<close>, a row-major array of shape \<open>s\<close> is \<open>outer_size\<close> blocks of
  \<open>axis_len\<close> slabs of \<open>inner_size\<close> elements: the element at position \<open>k\<close> of the axis,
  in block \<open>out\<close> and at offset \<open>inn\<close>, has the flat index
  \<open>(out * axis_len + k) * inner_size + inn\<close>. A 0-dimensional array is one block of
  one slab of one element.
\<close>

definition outer_size :: "ndarray \<Rightarrow> nat \<Rightarrow> nat" where
  "outer_size X d = prod_list (take d (shape X))"

definition axis_len :: "ndarray \<Rightarrow> nat \<Rightarrow> nat" where
  "axis_len X d = (if d < length (shape X) then shape X ! d else 1)"

definition inner_size :: "ndarray \<Rightarrow> nat \<Rightarrow> nat" where
  "inner_size X d = prod_list (drop (Suc d) (shape X))"

text \<open>The elements along axis \<open>d\<close> with the other indices fixed.\<close>

definition lane :: "ndarray \<Rightarrow> nat \<Rightarrow> nat \<Rightarrow> nat \<Rightarrow> fl list" where
  "lane X d out inn =
     map (\<lambda>k. data X ! ((out * axis_len X d + k) * inner_size X d + inn)) [0..<axis_len X d]"

text \<open>
  A reduction with \<^verbatim>\<open>keepdims=True\<close>: axis \<open>d\<close> shrinks to length 1 and every lane is
  replaced by the value of \<open>f\<close> on it.
\<close>

definition reduce_keepdims :: "(fl list \<Rightarrow> fl) \<Rightarrow> ndarray \<Rightarrow> nat \<Rightarrow> ndarray" where
  "reduce_keepdims f X d =
     \<lparr>shape = (shape X)[d := 1],
      data = map (\<lambda>q. f (lane X d (q div inner_size X d) (q mod inner_size X d)))
               [0..<outer_size X d * inner_size X d]\<rparr>"

subsection \<open>Mean and standard deviation that skip NaN\<close>

text \<open>
  \<^verbatim>\<open>np.nanmean\<close> replaces every NaN by zero, sums, and divides by the number of
  entries that were not NaN; with none left the quotient is \<open>0 / 0\<close>, NaN.
  \<^verbatim>\<open>np.nanstd\<close> is the square root of \<^verbatim>\<open>np.nanvar\<close> (with \<open>ddof = 0\<close>), which
  subtracts that mean from the entries, puts zero back at the NaN positions, and
  averages the squares over the same count.
\<close>

definition replace_nan :: "fl list \<Rightarrow> fl list" where
  "replace_nan xs = map (\<lambda>x. if is_nan x then Fin 0 else x) xs"

definition count_valid :: "fl list \<Rightarrow> nat" where
  "count_valid xs = length (filter (\<lambda>x. \<not> is_nan x) xs)"

definition nanmean :: "fl list \<Rightarrow> fl" where
  "nanmean xs = fdiv (fsum (replace_nan xs)) (Fin (real (count_valid xs)))"

definition nanvar :: "fl list \<Rightarrow> fl" where
  "nanvar xs =
     (let avg = nanmean xs;
          dev = map (\<lambda>x. if is_nan x then Fin 0 else fsub x avg) xs;
          sqr = map (\<lambda>a. fmul a a) dev
      in if count_valid xs = 0 then NaN
         else fdiv (fsum sqr) (Fin (real (count_valid xs))))"

definition nanstd :: "fl list \<Rightarrow> fl" where
  "nanstd xs = fsqrt (nanvar xs)"

definition np_nanmean :: "ndarray \<Rightarrow> int \<Rightarrow> error + ndarray" where
  "np_nanmean X axis =
     (case normalize_axis_index axis (length (shape X)) of
        Inl e \<Rightarrow> Inl e
      | Inr d \<Rightarrow> Inr (reduce_keepdims nanmean X d))"

definition np_nanstd :: "ndarray \<Rightarrow> int \<Rightarrow> error + ndarray" where
  "np_nanstd X axis =
     (case normalize_axis_index axis (length (shape X)) of
        Inl e \<Rightarrow> Inl e
      | Inr d \<Rightarrow> Inr (reduce_keepdims nanstd X d))"

subsection \<open>Elementwise arithmetic with broadcasting\<close>

text \<open>
  An array \<open>R\<close> whose shape is that of \<open>A\<close> with one axis of length 1 is broadcast against
  \<open>A\<close> by repeating it along that axis: the element of \<open>A\<close> at flat index \<open>j\<close> meets the
  element of \<open>R\<close> in the same block and at the same offset. \<open>broadcast_op\<close> finds the
  axis from the two shapes (the first where they differ; where they agree \<open>R\<close> already
  has the shape of \<open>A\<close> and the operation is elementwise).
\<close>

definition stretched_axis :: "nat list \<Rightarrow> nat list \<Rightarrow> nat option" where
  "stretched_axis s r =
     (case filter (\<lambda>k. s ! k \<noteq> r ! k) [0..<length s] of [] \<Rightarrow> None | k # _ \<Rightarrow> Some k)"

definition broadcast_op :: "(fl \<Rightarrow> fl \<Rightarrow> fl) \<Rightarrow> ndarray \<Rightarrow> ndarray \<Rightarrow> ndarray" where
  "broadcast_op f A R =
     (case stretched_axis (shape A) (shape R) of
        None \<Rightarrow> \<lparr>shape = shape A, data = map2 f (data A) (data R)\<rparr>
      | Some d \<Rightarrow>
          \<lparr>shape = shape A,
           data = map (\<lambda>j. f (data A ! j)
                     (data R ! ((j div (axis_len A d * inner_size A d)) * inner_size A d
                                + j mod inner_size A d)))
                    [0..<length (data A)]\<rparr>)"

definition add_scalar :: "ndarray \<Rightarrow> fl \<Rightarrow> ndarray" where
  "add_scalar A c = A\<lparr>data := map (\<lambda>x. fadd x c) (data A)\<rparr>"

section \<open>The normalizer\<close>

text \<open>
  \<^verbatim>\<open>zScore(X, dim)\<close>; the parameter \<^verbatim>\<open>dim\<close> is written \<open>axis\<close> here. A data frame is
  turned into an array first; then the mean along the axis is subtracted and the
  difference divided by the standard deviation along the axis plus \<open>1e-7\<close>.
\<close>

definition eps :: real where
  "eps = 1 / 10 ^ 7"

definition as_array :: "series \<Rightarrow> ndarray" where
  "as_array X = (case X of DataFrame df \<Rightarrow> to_numpy df | Array a \<Rightarrow> a)"

definition zScore :: "series \<Rightarrow> int \<Rightarrow> error + ndarray" where
  "zScore X0 axis =
     (let X = as_array X0 in
      case np_nanmean X axis of
        Inl e \<Rightarrow> Inl e
      | Inr M \<Rightarrow>
          (case np_nanstd X axis of
             Inl e \<Rightarrow> Inl e
           | Inr S \<Rightarrow>
               Inr (broadcast_op fdiv (broadcast_op fsub X M) (add_scalar S (Fin eps)))))"

section \<open>The smoother\<close>

text \<open>
  \<^verbatim>\<open>np.ones(w)\<close> raises \<^verbatim>\<open>ValueError\<close> for a negative length. \<^verbatim>\<open>np.convolve\<close>
  swaps its arguments when the second is the longer, raises \<^verbatim>\<open>ValueError\<close> when
  either is empty, and in mode \<^verbatim>\<open>valid\<close> returns the products summed at every
  position where the shorter sequence, reversed, lies wholly inside the longer.
\<close>

definition np_ones :: "int \<Rightarrow> error + fl list" where
  "np_ones w = (if w < 0 then Inl ValueError else Inr (replicate (nat w) (Fin 1)))"

definition convolve_valid :: "fl list \<Rightarrow> fl list \<Rightarrow> error + fl list" where
  "convolve_valid a0 v0 =
     (let a = (if length a0 < length v0 then v0 else a0);
          v = (if length a0 < length v0 then a0 else v0)
      in if length a = 0 then Inl ValueError
         else if length v = 0 then Inl ValueError
         else Inr (map (\<lambda>i. fsum (map (\<lambda>k. fmul (a ! (i + k)) (rev v ! k)) [0..<length v]))
                     [0..<length a - length v + 1]))"

text \<open>
  The input of \<open>moving_average\<close> is an array; \<^verbatim>\<open>np.convolve\<close> takes a 0-dimensional one
  as a sequence of length 1 and refuses one of two or more dimensions.
\<close>

definition moving_average :: "ndarray \<Rightarrow> int \<Rightarrow> error + ndarray" where
  "moving_average X w =
     (case np_ones w of
        Inl e \<Rightarrow> Inl e
      | Inr ones \<Rightarrow>
          if 1 < length (shape X) then Inl ValueError
          else (case convolve_valid (data X) ones of
                  Inl e \<Rightarrow> Inl e
                | Inr c \<Rightarrow>
                    Inr \<lparr>shape = [length c],
                         data = map (\<lambda>x. fdiv x (Fin (real_of_int w))) c\<rparr>))"

section \<open>The statistics of a sequence without missing values\<close>

text \<open>\<^verbatim>\<open>np.mean\<close> and \<^verbatim>\<open>np.std\<close>, in which the claims about the output are stated.\<close>

definition np_mean :: "fl list \<Rightarrow> fl" where
  "np_mean xs = fdiv (fsum xs) (Fin (real (length xs)))"

definition np_std :: "fl list \<Rightarrow> fl" where
  "np_std xs =
     fsqrt (fdiv (fsum (map (\<lambda>x. fmul (fsub x (np_mean xs)) (fsub x (np_mean xs))) xs))
                 (Fin (real (length xs))))"

section \<open>Notions the properties are stated in\<close>

text \<open>
  The finite entries of a sequence, in order; a sequence free of infinities; and the
  mean, variance and standard deviation of a list of reals.
\<close>

fun fin_vals :: "fl list \<Rightarrow> real list" where
  "fin_vals [] = []"
| "fin_vals (Fin r # xs) = r # fin_vals xs"
| "fin_vals (_ # xs) = fin_vals xs"

definition no_inf :: "fl list \<Rightarrow> bool" where
  "no_inf xs = list_all (\<lambda>x. is_fin x \<or> is_nan x) xs"

definition mean_r :: "real list \<Rightarrow> real" where
  "mean_r rs = sum_list rs / real (length rs)"

definition var_r :: "real list \<Rightarrow> real" where
  "var_r rs = sum_list (map (\<lambda>r. (r - mean_r rs) * (r - mean_r rs)) rs) / real (length rs)"

definition std_r :: "real list \<Rightarrow> real" where
  "std_r rs = sqrt (var_r rs)"

text \<open>The lane of the array that runs along axis \<open>d\<close> through the flat index \<open>j\<close>.\<close>

definition lane_of :: "ndarray \<Rightarrow> nat \<Rightarrow> nat \<Rightarrow> fl list" where
  "lane_of X d j = lane X d (j div (axis_len X d * inner_size X d)) (j mod inner_size X d)"

text \<open>
  An element that is strictly positive, finite or \<open>+\<infinity>\<close>; and an element that is not
  negative: a finite number from zero up, \<open>+\<infinity>\<close>, or NaN.
\<close>

fun fl_pos :: "fl \<Rightarrow> bool" where
  "fl_pos (Fin t) = (0 < t)"
| "fl_pos PInf = True"
| "fl_pos MInf = False"
| "fl_pos NaN = False"

fun not_neg :: "fl \<Rightarrow> bool" where
  "not_neg (Fin t) = (0 \<le> t)"
| "not_neg PInf = True"
| "not_neg MInf = False"
| "not_neg NaN = True"
section \<open>Facts about the arithmetic\<close>

lemma fmul_one [simp]: "fmul x (Fin 1) = x"
  by (cases x) auto

lemma fdiv_one [simp]: "fdiv x (Fin 1) = x"
  by (cases x) auto

lemma fadd_zero_left [simp]: "fadd (Fin 0) x = x"
  by (cases x) auto

lemma fadd_NaN_right [simp]: "fadd x NaN = NaN"
  by (cases x) auto

lemma foldl_fadd_NaN [simp]: "foldl fadd NaN xs = NaN"
  by (induction xs) auto

lemma foldl_fadd_has_NaN: "NaN \<in> set xs \<Longrightarrow> foldl fadd a xs = NaN"
  by (induction xs arbitrary: a) auto

lemma fsum_has_NaN: "NaN \<in> set xs \<Longrightarrow> fsum xs = NaN"
  by (simp add: fsum_def foldl_fadd_has_NaN)

lemma fdiv_NaN_left [simp]: "fdiv NaN y = NaN"
  by simp

section \<open>Index arithmetic of row-major arrays\<close>

lemma prod_list_split:
  "prod_list s
     = prod_list (take d s) * (if d < length s then s ! d else 1) * prod_list (drop (Suc d) s)"
proof (cases "d < length s")
  case True
  then have "s = take d s @ s ! d # drop (Suc d) s"
    by (rule id_take_nth_drop)
  then have "prod_list s = prod_list (take d s @ s ! d # drop (Suc d) s)"
    by simp
  with True show ?thesis
    by (simp add: mult.assoc)
next
  case False
  then show ?thesis by simp
qed

lemma wf_length:
  assumes "wf X"
  shows "length (data X) = outer_size X d * axis_len X d * inner_size X d"
  using assms prod_list_split [of "shape X" d]
  by (simp add: wf_def outer_size_def axis_len_def inner_size_def)

lemma flat_index_bound:
  fixes out n k inner inn :: nat
  assumes "out < outer" and "k < n" and "inn < inner"
  shows "(out * n + k) * inner + inn < outer * n * inner"
proof -
  have "out * n + k < outer * n"
  proof -
    have "out * n + k < out * n + n" using assms by simp
    also have "\<dots> = Suc out * n" by simp
    also have "\<dots> \<le> outer * n" using assms by (intro mult_le_mono1) simp
    finally show ?thesis .
  qed
  then have "Suc (out * n + k) \<le> outer * n" by simp
  then have "Suc (out * n + k) * inner \<le> outer * n * inner"
    by (rule mult_le_mono1)
  moreover have "(out * n + k) * inner + inn < Suc (out * n + k) * inner"
    using assms by simp
  ultimately show ?thesis by linarith
qed

lemma flat_index_block:
  fixes out n k inner inn :: nat
  assumes "k < n" and "inn < inner"
  shows "((out * n + k) * inner + inn) div (n * inner) = out"
    and "((out * n + k) * inner + inn) mod inner = inn"
proof -
  have lt: "k * inner + inn < n * inner"
    using flat_index_bound [of 0 1 k n inn inner] assms by simp
  have e: "(out * n + k) * inner + inn = (k * inner + inn) + out * (n * inner)"
    by (simp add: algebra_simps)
  have "n * inner \<noteq> 0"
    using assms by auto
  then have "(k * inner + inn + out * (n * inner)) div (n * inner)
               = out + (k * inner + inn) div (n * inner)"
    by (rule div_mult_self1)
  also have "\<dots> = out"
    using lt by simp
  finally show "((out * n + k) * inner + inn) div (n * inner) = out"
    unfolding e .
  show "((out * n + k) * inner + inn) mod inner = inn"
    using assms by simp
qed

lemma flat_index_decompose:
  fixes j n inner :: nat
  shows "j = ((j div (n * inner)) * n + (j div inner) mod n) * inner + j mod inner"
proof -
  have "j div (n * inner) = (j div inner) div n"
    by (simp add: div_mult2_eq mult.commute)
  then have "(j div (n * inner)) * n + (j div inner) mod n = j div inner"
    by simp
  then show ?thesis by simp
qed

lemma reduced_index:
  fixes j outer n inner :: nat
  assumes "j < outer * n * inner"
  shows "(j div (n * inner)) * inner + j mod inner < outer * inner"
    and "((j div (n * inner)) * inner + j mod inner) div inner = j div (n * inner)"
    and "((j div (n * inner)) * inner + j mod inner) mod inner = j mod inner"
    and "j div (n * inner) < outer" and "(j div inner) mod n < n" and "j mod inner < inner"
proof -
  have pos: "0 < inner" "0 < n"
    using assms by (cases inner; cases n; simp)+
  show o: "j div (n * inner) < outer"
    using assms pos by (simp add: less_mult_imp_div_less mult.assoc)
  show i: "j mod inner < inner" using pos by simp
  show "(j div inner) mod n < n" using pos by simp
  show "(j div (n * inner)) * inner + j mod inner < outer * inner"
    using flat_index_bound [of "j div (n * inner)" outer 0 1 "j mod inner" inner] o i by simp
  show "((j div (n * inner)) * inner + j mod inner) div inner = j div (n * inner)"
    using i by simp
  show "((j div (n * inner)) * inner + j mod inner) mod inner = j mod inner"
    by simp
qed


section \<open>The normalizer, element by element\<close>

lemma filter_only:
  "filter (\<lambda>k. k = d \<and> c) [0..<m] = (if c \<and> d < m then [d] else [])"
  by (induction m) auto

lemma stretched_axis_update:
  "stretched_axis s (s[d := 1]) = (if d < length s \<and> s ! d \<noteq> 1 then Some d else None)"
proof -
  have "(s ! k \<noteq> s[d := 1] ! k) = (k = d \<and> s ! d \<noteq> 1)" if "k < length s" for k
  proof (cases "d < length s")
    case True
    then show ?thesis
      by (auto simp: nth_list_update)
  next
    case False
    then show ?thesis
      using that by (simp add: list_update_beyond)
  qed
  then have "filter (\<lambda>k. s ! k \<noteq> s[d := 1] ! k) [0..<length s]
          = filter (\<lambda>k. k = d \<and> s ! d \<noteq> 1) [0..<length s]"
    by (intro filter_cong) simp_all
  then show ?thesis
    by (simp add: stretched_axis_def filter_only)
qed

lemma map2_by_index:
  assumes "length xs = length ys"
  shows "map2 f xs ys = map (\<lambda>j. f (xs ! j) (ys ! j)) [0..<length xs]"
  using assms by (intro nth_equalityI) auto

lemma geometry_cong:
  assumes "shape A = shape B"
  shows "outer_size A d = outer_size B d" and "axis_len A d = axis_len B d"
    and "inner_size A d = inner_size B d"
  using assms by (simp_all add: outer_size_def axis_len_def inner_size_def)

lemma broadcast_op_axis:
  assumes "shape R = (shape A)[d := 1]"
    and "length (data A) = outer_size A d * axis_len A d * inner_size A d"
    and "length (data R) = outer_size A d * inner_size A d"
  shows "broadcast_op f A R =
           \<lparr>shape = shape A,
            data = map (\<lambda>j. f (data A ! j)
                      (data R ! ((j div (axis_len A d * inner_size A d)) * inner_size A d
                                 + j mod inner_size A d)))
                     [0..<length (data A)]\<rparr>"
proof (cases "axis_len A d = 1")
  case False
  then have "d < length (shape A) \<and> shape A ! d \<noteq> 1"
    by (simp add: axis_len_def split: if_splits)
  then have "stretched_axis (shape A) (shape R) = Some d"
    unfolding assms(1) stretched_axis_update by simp
  then show ?thesis
    by (simp add: broadcast_op_def)
next
  case True
  note n = True
  have "\<not> (d < length (shape A) \<and> shape A ! d \<noteq> 1)"
    using True by (simp add: axis_len_def split: if_splits)
  then have ax: "stretched_axis (shape A) (shape R) = None"
    unfolding assms(1) stretched_axis_update by simp
  have len: "length (data A) = length (data R)"
    using assms n by simp
  have "map2 f (data A) (data R) = map (\<lambda>j. f (data A ! j) (data R ! j)) [0..<length (data A)]"
    using len by (rule map2_by_index)
  moreover have "(j div (axis_len A d * inner_size A d)) * inner_size A d + j mod inner_size A d = j"
    for j
    by (simp add: n div_mult_mod_eq)
  ultimately show ?thesis
    by (simp add: broadcast_op_def ax)
qed

lemma reduce_keepdims_nth:
  assumes "j < outer_size X d * axis_len X d * inner_size X d"
  shows "data (reduce_keepdims f X d)
           ! ((j div (axis_len X d * inner_size X d)) * inner_size X d + j mod inner_size X d)
         = f (lane_of X d j)"
  using reduced_index(1-3) [OF assms]
  by (simp add: reduce_keepdims_def lane_of_def del: upt_Suc)

lemma zScore_data:
  assumes "wf X" and "normalize_axis_index axis (length (shape X)) = Inr d"
  shows "zScore (Array X) axis =
           Inr \<lparr>shape = shape X,
                data = map (\<lambda>j. fdiv (fsub (data X ! j) (nanmean (lane_of X d j)))
                                   (fadd (nanstd (lane_of X d j)) (Fin eps)))
                         [0..<length (data X)]\<rparr>"
proof -
  have len: "length (data X) = outer_size X d * axis_len X d * inner_size X d"
    using assms(1) by (rule wf_length)
  let ?q = "\<lambda>j. (j div (axis_len X d * inner_size X d)) * inner_size X d + j mod inner_size X d"
  define M where "M = reduce_keepdims nanmean X d"
  define S where "S = add_scalar (reduce_keepdims nanstd X d) (Fin eps)"
  define D where "D = broadcast_op fsub X M"
  have M: "shape M = (shape X)[d := 1]" "length (data M) = outer_size X d * inner_size X d"
    by (simp_all add: M_def reduce_keepdims_def)
  have S: "shape S = (shape X)[d := 1]" "length (data S) = outer_size X d * inner_size X d"
    by (simp_all add: S_def reduce_keepdims_def add_scalar_def)
  have D: "D = \<lparr>shape = shape X,
                 data = map (\<lambda>j. fsub (data X ! j) (data M ! ?q j)) [0..<length (data X)]\<rparr>"
    unfolding D_def using M(1) len M(2) by (rule broadcast_op_axis)
  have shD: "shape D = shape X" and lenD: "length (data D) = length (data X)"
    by (simp_all add: D)
  note geom = geometry_cong [OF shD, of d]
  have quot: "broadcast_op fdiv D S =
          \<lparr>shape = shape D,
           data = map (\<lambda>j. fdiv (data D ! j)
                     (data S ! ((j div (axis_len D d * inner_size D d)) * inner_size D d
                                 + j mod inner_size D d)))
                     [0..<length (data D)]\<rparr>"
  proof (rule broadcast_op_axis)
    show "shape S = (shape D)[d := 1]" by (simp add: S shD)
    show "length (data D) = outer_size D d * axis_len D d * inner_size D d"
      by (simp only: geom lenD len)
    show "length (data S) = outer_size D d * inner_size D d"
      by (simp only: geom S)
  qed
  have elt: "fdiv (data D ! j) (data S ! ?q j)
               = fdiv (fsub (data X ! j) (nanmean (lane_of X d j)))
                      (fadd (nanstd (lane_of X d j)) (Fin eps))"
    if "j < length (data X)" for j
  proof -
    have j: "j < outer_size X d * axis_len X d * inner_size X d"
      using that len by simp
    have q: "?q j < outer_size X d * inner_size X d"
      using reduced_index(1) [OF j] .
    have m: "data M ! ?q j = nanmean (lane_of X d j)"
      unfolding M_def using j by (rule reduce_keepdims_nth)
    have "data (reduce_keepdims nanstd X d) ! ?q j = nanstd (lane_of X d j)"
      using j by (rule reduce_keepdims_nth)
    moreover have "length (data (reduce_keepdims nanstd X d)) = outer_size X d * inner_size X d"
      by (simp add: reduce_keepdims_def)
    ultimately have s: "data S ! ?q j = fadd (nanstd (lane_of X d j)) (Fin eps)"
      using q by (simp add: S_def add_scalar_def)
    have "data D ! j = fsub (data X ! j) (nanmean (lane_of X d j))"
      using that m by (simp add: D del: upt_Suc)
    with s show ?thesis by simp
  qed
  have "map (\<lambda>j. fdiv (data D ! j) (data S ! ?q j)) [0..<length (data X)]
          = map (\<lambda>j. fdiv (fsub (data X ! j) (nanmean (lane_of X d j)))
                                   (fadd (nanstd (lane_of X d j)) (Fin eps)))
                         [0..<length (data X)]"
    by (rule map_cong [OF refl]) (simp add: elt del: upt_Suc)
  then have "broadcast_op fdiv D S =
           \<lparr>shape = shape X,
                data = map (\<lambda>j. fdiv (fsub (data X ! j) (nanmean (lane_of X d j)))
                                   (fadd (nanstd (lane_of X d j)) (Fin eps)))
                         [0..<length (data X)]\<rparr>"
    unfolding quot by (simp only: geom lenD shD)
  then show ?thesis
    using assms(2)
    by (simp add: zScore_def as_array_def np_nanmean_def np_nanstd_def D_def M_def S_def)
qed


section \<open>Statistics of a lane without infinities\<close>

lemma no_inf_Cons [simp]: "no_inf (x # xs) = ((is_fin x \<or> is_nan x) \<and> no_inf xs)"
  by (simp add: no_inf_def)

lemma no_inf_Nil [simp]: "no_inf []"
  by (simp add: no_inf_def)

lemma foldl_replace_nan:
  "no_inf xs \<Longrightarrow> foldl fadd (Fin a) (replace_nan xs) = Fin (a + sum_list (fin_vals xs))"
proof (induction xs arbitrary: a)
  case Nil
  then show ?case by (simp add: replace_nan_def)
next
  case (Cons x xs)
  then have "no_inf xs" by simp
  note ih = Cons.IH [OF this, unfolded replace_nan_def]
  from Cons.prems show ?case
    by (cases x) (simp_all add: replace_nan_def ih add.assoc)
qed

lemma count_valid_fin_vals: "no_inf xs \<Longrightarrow> count_valid xs = length (fin_vals xs)"
  unfolding count_valid_def
proof (induction xs)
  case Nil
  then show ?case by simp
next
  case (Cons x xs)
  then show ?case by (cases x) simp_all
qed

lemma nanmean_no_inf:
  assumes "no_inf xs"
  shows "nanmean xs = (if fin_vals xs = [] then NaN else Fin (mean_r (fin_vals xs)))"
  using assms
  by (simp add: nanmean_def fsum_def foldl_replace_nan count_valid_fin_vals mean_r_def)

lemma foldl_sq_dev:
  "no_inf xs \<Longrightarrow>
     foldl fadd (Fin a)
       (map (\<lambda>a. fmul a a) (map (\<lambda>x. if is_nan x then Fin 0 else fsub x (Fin m)) xs))
     = Fin (a + sum_list (map (\<lambda>r. (r - m) * (r - m)) (fin_vals xs)))"
proof (induction xs arbitrary: a)
  case Nil
  then show ?case by simp
next
  case (Cons x xs)
  then have "no_inf xs" by simp
  note ih = Cons.IH [OF this]
  from Cons.prems show ?case
    by (cases x) (simp_all add: ih fsub_def add.assoc del: map_map)
qed

lemma nanvar_no_inf:
  assumes "no_inf xs" and "fin_vals xs \<noteq> []"
  shows "nanvar xs = Fin (var_r (fin_vals xs))"
  using assms
  by (simp add: nanvar_def Let_def nanmean_no_inf fsum_def foldl_sq_dev count_valid_fin_vals
        var_r_def del: map_map)

lemma var_r_nonneg: "0 \<le> var_r rs"
  unfolding var_r_def
  by (intro divide_nonneg_nonneg sum_list_nonneg) auto

lemma nanstd_no_inf:
  assumes "no_inf xs" and "fin_vals xs \<noteq> []"
  shows "nanstd xs = Fin (std_r (fin_vals xs))"
  using assms var_r_nonneg [of "fin_vals xs"]
  by (simp add: nanstd_def nanvar_no_inf std_r_def)

lemma std_r_nonneg: "0 \<le> std_r rs"
  by (simp add: std_r_def var_r_nonneg)

lemma eps_pos: "0 < eps"
  by (simp add: eps_def)

section \<open>The smoother: what it computes\<close>

lemma window_nth:
  assumes "i + w \<le> length xs"
  shows "map (\<lambda>k. xs ! (i + k)) [0..<w] = take w (drop i xs)"
  using assms by (intro nth_equalityI) auto

lemma convolve_valid_ones:
  assumes "0 < w" and "w \<le> length xs"
  shows "convolve_valid xs (replicate w (Fin 1)) =
           Inr (map (\<lambda>i. fsum (take w (drop i xs))) [0..<length xs - w + 1])"
proof -
  have win: "map (\<lambda>k. fmul (xs ! (i + k)) (rev (replicate w (Fin 1)) ! k)) [0..<w]
               = take w (drop i xs)" if "i < length xs - w + 1" for i
  proof -
    have "map (\<lambda>k. fmul (xs ! (i + k)) (rev (replicate w (Fin 1)) ! k)) [0..<w]
            = map (\<lambda>k. xs ! (i + k)) [0..<w]"
      by (rule map_cong) auto
    also have "\<dots> = take w (drop i xs)"
      using that assms by (intro window_nth) linarith
    finally show ?thesis .
  qed
  have e: "map (\<lambda>i. fsum (map (\<lambda>k. fmul (xs ! (i + k)) (rev (replicate w (Fin 1)) ! k)) [0..<w]))
            [0..<length xs - w + 1]
          = map (\<lambda>i. fsum (take w (drop i xs))) [0..<length xs - w + 1]"
  proof (rule map_cong [OF refl])
    fix i assume "i \<in> set [0..<length xs - w + 1]"
    then have "i < length xs - w + 1" by (simp del: upt_Suc)
    then show "fsum (map (\<lambda>k. fmul (xs ! (i + k)) (rev (replicate w (Fin 1)) ! k)) [0..<w])
                 = fsum (take w (drop i xs))"
      by (simp only: win)
  qed
  have c: "(length xs < w) = False" "(length xs = 0) = False" "(w = 0) = False"
    using assms by auto
  show ?thesis
    unfolding convolve_valid_def Let_def
    by (simp only: c e if_False length_replicate)
qed

lemma moving_average_eq:
  assumes "wf X" and "shape X = [n]" and "1 \<le> w" and "w \<le> int n"
  shows "moving_average X w =
           Inr \<lparr>shape = [n - nat w + 1],
                data = map (\<lambda>i. np_mean (take (nat w) (drop i (data X)))) [0..<n - nat w + 1]\<rparr>"
proof -
  have len: "length (data X) = n"
    using assms by (simp add: wf_def)
  have w: "0 < nat w" "nat w \<le> length (data X)" "real_of_int w = real (nat w)"
    using assms len by auto
  have m: "min (length (data X) - i) (nat w) = nat w" if "i < n - nat w + 1" for i
    using that w len by linarith
  show ?thesis
    using assms w
    by (simp add: moving_average_def np_ones_def convolve_valid_ones len np_mean_def m
             del: of_nat_nat)
qed


text \<open>
  C2. For a 1-D array \<open>X\<close> of length \<open>n\<close> and a window \<open>1 \<le> w \<le> n\<close>, \<open>moving_average X w\<close>
  returns a 1-D array of length \<open>n - w + 1\<close> whose \<open>i\<close>-th element is the mean of
  \<open>X[i : i+w]\<close>; on \<open>[1,2,3,4,5]\<close> with \<open>w = 3\<close> it returns \<open>[2,3,4]\<close>.
\<close>

theorem moving_average_window_mean:
  "(wf X \<and> shape X = [n] \<and> 1 \<le> w \<and> w \<le> int n \<longrightarrow>
      moving_average X w =
        Inr \<lparr>shape = [n - nat w + 1],
             data = map (\<lambda>i. np_mean (take (nat w) (drop i (data X)))) [0..<n - nat w + 1]\<rparr>)
   \<and> moving_average \<lparr>shape = [5], data = [Fin 1, Fin 2, Fin 3, Fin 4, Fin 5]\<rparr> 3 =
        Inr \<lparr>shape = [3], data = [Fin 2, Fin 3, Fin 4]\<rparr>"
proof (intro conjI impI)
  assume "wf X \<and> shape X = [n] \<and> 1 \<le> w \<and> w \<le> int n"
  then show "moving_average X w =
        Inr \<lparr>shape = [n - nat w + 1],
             data = map (\<lambda>i. np_mean (take (nat w) (drop i (data X)))) [0..<n - nat w + 1]\<rparr>"
    by (simp add: moving_average_eq)
next
  let ?X = "\<lparr>shape = [5], data = [Fin 1, Fin 2, Fin 3, Fin 4, Fin 5]\<rparr>"
  have "wf ?X" by (simp add: wf_def)
  then have "moving_average ?X 3 =
       Inr \<lparr>shape = [5 - nat 3 + 1],
            data = map (\<lambda>i. np_mean (take (nat 3) (drop i (data ?X)))) [0..<5 - nat 3 + 1]\<rparr>"
    by (intro moving_average_eq) auto
  then show "moving_average ?X 3 = Inr \<lparr>shape = [3], data = [Fin 2, Fin 3, Fin 4]\<rparr>"
    by (simp add: np_mean_def fsum_def eval_nat_numeral)
qed

theorem moving_average_window_mean_witness:
  "wf \<lparr>shape = [2], data = [Fin 1, Fin 3]\<rparr> \<and> (1::int) \<le> 2 \<and> (2::int) \<le> int 2
   \<and> moving_average \<lparr>shape = [2], data = [Fin 1, Fin 3]\<rparr> 2 = Inr \<lparr>shape = [1], data = [Fin 2]\<rparr>"
  using moving_average_window_mean [of "\<lparr>shape = [2], data = [Fin 1, Fin 3]\<rparr>" 2 2]
  by (simp add: wf_def np_mean_def fsum_def)

text \<open>
  C6. For a 1-D array \<open>X\<close> of length \<open>n\<close> and a window \<open>1 \<le> w \<le> n\<close>, when an element of the
  window \<open>X[i : i+w]\<close> is NaN, element \<open>i\<close> of \<open>moving_average X w\<close> is NaN: the smoother
  neither skips nor replaces a missing value.
\<close>

theorem moving_average_nan_poisons:
  assumes "wf X" and "shape X = [n]" and "1 \<le> w" and "w \<le> int n"
    and "i + nat w \<le> n" and "NaN \<in> set (take (nat w) (drop i (data X)))"
  shows "\<exists>Y. moving_average X w = Inr Y \<and> length (data Y) = n - nat w + 1 \<and> i < length (data Y)
           \<and> data Y ! i = NaN"
proof -
  have i: "i < n - nat w + 1"
    using assms by linarith
  have "np_mean (take (nat w) (drop i (data X))) = NaN"
    using assms(6) by (simp add: np_mean_def fsum_has_NaN)
  with i show ?thesis
    by (simp add: moving_average_eq [OF assms(1-4)] del: upt_Suc)
qed

theorem moving_average_nan_poisons_witness:
  "wf \<lparr>shape = [3], data = [Fin 1, NaN, Fin 3]\<rparr>
   \<and> NaN \<in> set (take (nat 2) (drop 0 (data \<lparr>shape = [3], data = [Fin 1, NaN, Fin 3]\<rparr>)))
   \<and> (\<exists>Y. moving_average \<lparr>shape = [3], data = [Fin 1, NaN, Fin 3]\<rparr> 2 = Inr Y
         \<and> length (data Y) = 2 \<and> data Y ! 0 = NaN)"
  using moving_average_nan_poisons [of "\<lparr>shape = [3], data = [Fin 1, NaN, Fin 3]\<rparr>" 3 2 0]
  by (auto simp: wf_def)

text \<open>
  C10. A window of width 1 is the identity: for a non-empty 1-D array \<open>X\<close>,
  \<open>moving_average X 1\<close> returns \<open>X\<close>.
\<close>

theorem moving_average_width_one:
  assumes "wf X" and "shape X = [n]" and "0 < n"
  shows "moving_average X 1 = Inr X"
proof -
  have len: "length (data X) = n"
    using assms by (simp add: wf_def)
  have one: "np_mean (take (nat 1) (drop i (data X))) = data X ! i" if "i < n" for i
  proof -
    have "take (nat 1) (drop i (data X)) = [data X ! i]"
      using that len by (simp add: Cons_nth_drop_Suc [symmetric])
    then show ?thesis
      by (simp add: np_mean_def fsum_def)
  qed
  have "map (\<lambda>i. np_mean (take (nat 1) (drop i (data X)))) [0..<n] = map (\<lambda>i. data X ! i) [0..<n]"
    by (rule map_cong) (auto simp: one simp del: nat_1)
  also have "\<dots> = data X"
    using map_nth [of "data X"] by (simp only: len)
  finally have d: "map (\<lambda>i. np_mean (take (nat 1) (drop i (data X)))) [0..<n] = data X" .
  have "moving_average X 1 =
          Inr \<lparr>shape = [n - nat 1 + 1],
               data = map (\<lambda>i. np_mean (take (nat 1) (drop i (data X)))) [0..<n - nat 1 + 1]\<rparr>"
    using assms by (intro moving_average_eq) auto
  also have "n - nat 1 + 1 = n"
    using assms by simp
  finally show ?thesis
    using assms(2) by (simp only: d) simp
qed

theorem moving_average_width_one_witness:
  "wf \<lparr>shape = [2], data = [Fin 4, NaN]\<rparr>
   \<and> moving_average \<lparr>shape = [2], data = [Fin 4, NaN]\<rparr> 1 = Inr \<lparr>shape = [2], data = [Fin 4, NaN]\<rparr>"
  using moving_average_width_one [of "\<lparr>shape = [2], data = [Fin 4, NaN]\<rparr>" 2]
  by (simp add: wf_def)

section \<open>The normalizer: its lanes\<close>

lemma length_lane [simp]: "length (lane X d out inn) = axis_len X d"
  by (simp add: lane_def)

lemma length_lane_of [simp]: "length (lane_of X d j) = axis_len X d"
  by (simp add: lane_of_def)

lemma lane_of_flat_index:
  assumes "k < axis_len X d" and "inn < inner_size X d"
  shows "lane_of X d ((out * axis_len X d + k) * inner_size X d + inn) = lane X d out inn"
  unfolding lane_of_def using flat_index_block [OF assms] by simp

lemma lane_of_nth:
  "lane_of X d j ! ((j div inner_size X d) mod axis_len X d) = data X ! j"
  if "j < outer_size X d * axis_len X d * inner_size X d"
proof -
  have k: "(j div inner_size X d) mod axis_len X d < axis_len X d"
    using reduced_index(5) [OF that] .
  have "lane_of X d j ! ((j div inner_size X d) mod axis_len X d)
          = data X ! (((j div (axis_len X d * inner_size X d)) * axis_len X d
                        + (j div inner_size X d) mod axis_len X d) * inner_size X d
                      + j mod inner_size X d)"
    using k by (simp add: lane_of_def lane_def del: upt_Suc)
  also have "\<dots> = data X ! j"
    using flat_index_decompose [of j "axis_len X d" "inner_size X d"] by simp
  finally show ?thesis .
qed

lemma elem_in_lane_of:
  assumes "j < outer_size X d * axis_len X d * inner_size X d"
  shows "data X ! j \<in> set (lane_of X d j)"
proof -
  have "(j div inner_size X d) mod axis_len X d < length (lane_of X d j)"
    using reduced_index(5) [OF assms] by simp
  then have "lane_of X d j ! ((j div inner_size X d) mod axis_len X d) \<in> set (lane_of X d j)"
    by (rule nth_mem)
  then show ?thesis
    by (simp only: lane_of_nth [OF assms])
qed

lemma lane_map:
  assumes "shape Y = shape X"
    and "length (data X) = outer_size X d * axis_len X d * inner_size X d"
    and "data Y = map (\<lambda>j. g (data X ! j) (lane_of X d j)) [0..<length (data X)]"
    and "out < outer_size X d" and "inn < inner_size X d"
  shows "lane Y d out inn = map (\<lambda>x. g x (lane X d out inn)) (lane X d out inn)"
proof -
  note geom = geometry_cong [OF assms(1), of d]
  have "data Y ! ((out * axis_len X d + k) * inner_size X d + inn)
          = g (data X ! ((out * axis_len X d + k) * inner_size X d + inn)) (lane X d out inn)"
    if "k < axis_len X d" for k
  proof -
    have "(out * axis_len X d + k) * inner_size X d + inn < length (data X)"
      unfolding assms(2) using assms(4) that assms(5) by (rule flat_index_bound)
    then show ?thesis
      using lane_of_flat_index [OF that assms(5), of out]
      by (simp add: assms(3) del: upt_Suc)
  qed
  then show ?thesis
    by (simp add: lane_def geom del: upt_Suc)
qed


lemma fsub_zero_right [simp]: "fsub x (Fin 0) = x"
  by (cases x) (simp_all add: fsub_def)

lemma fdiv_NaN_right [simp]: "fdiv x NaN = NaN"
  by (cases x) simp_all

lemma fsub_NaN_left [simp]: "fsub NaN y = NaN"
  by (simp add: fsub_def)

lemma zScore_lanes:
  assumes "wf X" and "normalize_axis_index axis (length (shape X)) = Inr d"
  shows "zScore (Array X) axis =
           Inr \<lparr>shape = shape X,
                data = map (\<lambda>j. fdiv (fsub (data X ! j) (nanmean (lane_of X d j)))
                                   (fadd (nanstd (lane_of X d j)) (Fin eps)))
                         [0..<length (data X)]\<rparr>"
    and "length (data X) = outer_size X d * axis_len X d * inner_size X d"
proof -
  show "length (data X) = outer_size X d * axis_len X d * inner_size X d"
    using assms(1) by (rule wf_length)
  show "zScore (Array X) axis =
           Inr \<lparr>shape = shape X,
                data = map (\<lambda>j. fdiv (fsub (data X ! j) (nanmean (lane_of X d j)))
                                   (fadd (nanstd (lane_of X d j)) (Fin eps)))
                         [0..<length (data X)]\<rparr>"
    using assms by (rule zScore_data)
qed
lemma concat_uniform_length:
  "list_all (\<lambda>r. length r = c) rs \<Longrightarrow> length (concat rs) = length rs * c"
  by (induction rs) simp_all

lemma concat_uniform_nth:
  "list_all (\<lambda>r. length r = c) rs \<Longrightarrow> i < length rs \<Longrightarrow> j < c
     \<Longrightarrow> concat rs ! (i * c + j) = rs ! i ! j"
proof (induction rs arbitrary: i)
  case Nil
  then show ?case by simp
next
  case (Cons r rs)
  show ?case
  proof (cases i)
    case 0
    with Cons.prems show ?thesis
      by (simp add: nth_append)
  next
    case (Suc i')
    have "concat (r # rs) ! (Suc i' * c + j) = concat rs ! (i' * c + j)"
      using Cons.prems by (simp add: nth_append)
    also have "\<dots> = rs ! i' ! j"
      using Cons.prems Suc by (intro Cons.IH) simp_all
    finally show ?thesis
      by (simp add: Suc)
  qed
qed

lemma to_numpy_wf:
  assumes "rectangular df"
  shows "wf (to_numpy df)"
  using assms concat_uniform_length [of "length (columns df)" "rows df"]
  by (simp add: rectangular_def wf_def to_numpy_def)

text \<open>
  C7. A data frame is turned into a plain 2-D array before anything is computed:
  \<open>zScore\<close> of the frame is \<open>zScore\<close> of the array of its cells, whose shape is the number
  of rows by the number of columns and whose element in row \<open>i\<close> and column \<open>j\<close> is the
  cell of the frame there. The column labels have no part in the result (relabelling
  the columns changes nothing), and for an axis in range the result is the array of
  that same shape holding, at each position, the cell less the mean of its lane over
  the standard deviation of its lane plus \<open>1e-7\<close>. The result is of type \<open>ndarray\<close>: a
  plain array, never a data frame.
\<close>

theorem zScore_dataframe:
  "zScore (DataFrame df) axis = zScore (Array (to_numpy df)) axis
   \<and> shape (to_numpy df) = [length (rows df), length (columns df)]
   \<and> zScore (DataFrame (df\<lparr>columns := map f (columns df)\<rparr>)) axis = zScore (DataFrame df) axis
   \<and> (rectangular df \<longrightarrow>
        wf (to_numpy df)
        \<and> (\<forall>i<length (rows df). \<forall>j<length (columns df).
              data (to_numpy df) ! (i * length (columns df) + j) = rows df ! i ! j)
        \<and> (\<forall>d. normalize_axis_index axis 2 = Inr d \<longrightarrow>
              zScore (DataFrame df) axis =
                Inr \<lparr>shape = [length (rows df), length (columns df)],
                     data = map (\<lambda>j. fdiv (fsub (data (to_numpy df) ! j)
                                               (nanmean (lane_of (to_numpy df) d j)))
                                         (fadd (nanstd (lane_of (to_numpy df) d j)) (Fin eps)))
                              [0..<length (rows df) * length (columns df)]\<rparr>))"
proof (intro conjI impI allI)
  show "zScore (DataFrame df) axis = zScore (Array (to_numpy df)) axis"
    by (simp add: zScore_def as_array_def)
  show "shape (to_numpy df) = [length (rows df), length (columns df)]"
    by (simp add: to_numpy_def)
  show "zScore (DataFrame (df\<lparr>columns := map f (columns df)\<rparr>)) axis = zScore (DataFrame df) axis"
    by (simp add: zScore_def as_array_def to_numpy_def)
next
  assume r: "rectangular df"
  then show "wf (to_numpy df)"
    by (rule to_numpy_wf)
next
  fix i j
  assume "rectangular df" and "i < length (rows df)" and "j < length (columns df)"
  then show "data (to_numpy df) ! (i * length (columns df) + j) = rows df ! i ! j"
    by (simp add: rectangular_def to_numpy_def concat_uniform_nth)
next
  fix d
  assume r: "rectangular df" and a: "normalize_axis_index axis 2 = Inr d"
  have w: "wf (to_numpy df)"
    using r by (rule to_numpy_wf)
  have sh: "shape (to_numpy df) = [length (rows df), length (columns df)]"
    by (simp add: to_numpy_def)
  have len: "length (data (to_numpy df)) = length (rows df) * length (columns df)"
    using w by (simp add: wf_def sh)
  have "length (shape (to_numpy df)) = 2"
    by (simp add: sh)
  then have a': "normalize_axis_index axis (length (shape (to_numpy df))) = Inr d"
    using a by (simp only:)
  have "zScore (DataFrame df) axis = zScore (Array (to_numpy df)) axis"
    by (simp add: zScore_def as_array_def)
  also note zScore_lanes(1) [OF w a']
  finally show "zScore (DataFrame df) axis =
                Inr \<lparr>shape = [length (rows df), length (columns df)],
                     data = map (\<lambda>j. fdiv (fsub (data (to_numpy df) ! j)
                                               (nanmean (lane_of (to_numpy df) d j)))
                                         (fadd (nanstd (lane_of (to_numpy df) d j)) (Fin eps)))
                              [0..<length (rows df) * length (columns df)]\<rparr>"
    by (simp only: sh len)
qed

text \<open>
  A frame of two rows under three columns, normalized down its columns: the columns
  \<open>[1, 3]\<close> and \<open>[5, 7]\<close> have mean 2 and 6 and standard deviation 1, the column \<open>[2, 2]\<close>
  is constant.
\<close>

theorem zScore_dataframe_witness:
  "rectangular \<lparr>columns = [''a'', ''b'', ''c''], rows = [[Fin 1, Fin 2, Fin 5], [Fin 3, Fin 2, Fin 7]]\<rparr>
   \<and> normalize_axis_index 0 2 = Inr 0
   \<and> shape (to_numpy \<lparr>columns = [''a'', ''b'', ''c''],
                       rows = [[Fin 1, Fin 2, Fin 5], [Fin 3, Fin 2, Fin 7]]\<rparr>) = [2, 3]
   \<and> data (to_numpy \<lparr>columns = [''a'', ''b'', ''c''],
                      rows = [[Fin 1, Fin 2, Fin 5], [Fin 3, Fin 2, Fin 7]]\<rparr>) ! (1 * 3 + 2) = Fin 7
   \<and> zScore (DataFrame \<lparr>columns = [''a'', ''b'', ''c''],
                         rows = [[Fin 1, Fin 2, Fin 5], [Fin 3, Fin 2, Fin 7]]\<rparr>) 0
       = Inr \<lparr>shape = [2, 3],
              data = [Fin (- 1 / (1 + eps)), Fin 0, Fin (- 1 / (1 + eps)),
                      Fin (1 / (1 + eps)), Fin 0, Fin (1 / (1 + eps))]\<rparr>"
proof -
  let ?F = "\<lparr>columns = [''a'', ''b'', ''c''], rows = [[Fin 1, Fin 2, Fin 5], [Fin 3, Fin 2, Fin 7]]\<rparr>"
  let ?X = "\<lparr>shape = [2, 3], data = [Fin 1, Fin 2, Fin 5, Fin 3, Fin 2, Fin 7]\<rparr>"
  have r: "rectangular ?F"
    by (simp add: rectangular_def)
  have a: "normalize_axis_index 0 2 = Inr 0"
    by (simp add: normalize_axis_index_def)
  have t: "to_numpy ?F = ?X"
    by (simp add: to_numpy_def)
  have g: "outer_size ?X 0 = 1" "axis_len ?X 0 = 2" "inner_size ?X 0 = 3"
    by (simp_all add: outer_size_def axis_len_def inner_size_def)
  have u: "[0..<2] = [0, Suc 0]"
    "[0..<6] = [0, Suc 0, Suc (Suc 0), Suc (Suc (Suc 0)), Suc (Suc (Suc (Suc 0))),
                Suc (Suc (Suc (Suc (Suc 0))))]"
    by (simp_all add: upt_rec)
  have l: "lane_of ?X 0 0 = [Fin 1, Fin 3]" "lane_of ?X 0 (Suc 0) = [Fin 2, Fin 2]"
    "lane_of ?X 0 (Suc (Suc 0)) = [Fin 5, Fin 7]"
    "lane_of ?X 0 (Suc (Suc (Suc 0))) = [Fin 1, Fin 3]"
    "lane_of ?X 0 (Suc (Suc (Suc (Suc 0)))) = [Fin 2, Fin 2]"
    "lane_of ?X 0 (Suc (Suc (Suc (Suc (Suc 0))))) = [Fin 5, Fin 7]"
    by (simp_all add: lane_of_def lane_def g u)
  have m: "nanmean [Fin 1, Fin 3] = Fin 2" "nanmean [Fin 2, Fin 2] = Fin 2"
    "nanmean [Fin 5, Fin 7] = Fin 6"
    by (simp_all add: nanmean_def replace_nan_def count_valid_def fsum_def)
  have s: "nanstd [Fin 1, Fin 3] = Fin 1" "nanstd [Fin 2, Fin 2] = Fin 0"
    "nanstd [Fin 5, Fin 7] = Fin 1"
    by (simp_all add: nanstd_def nanvar_def m fsub_def count_valid_def fsum_def Let_def)
  have e: "1 + eps \<noteq> 0" "eps \<noteq> 0"
    using eps_pos by simp_all
  have "zScore (DataFrame ?F) 0 =
          Inr \<lparr>shape = [length (rows ?F), length (columns ?F)],
               data = map (\<lambda>j. fdiv (fsub (data (to_numpy ?F) ! j)
                                         (nanmean (lane_of (to_numpy ?F) 0 j)))
                                   (fadd (nanstd (lane_of (to_numpy ?F) 0 j)) (Fin eps)))
                        [0..<length (rows ?F) * length (columns ?F)]\<rparr>"
    using zScore_dataframe [of ?F 0 id] r a by blast
  moreover have "length (rows ?F) = 2" "length (columns ?F) = 3"
    "length (rows ?F) * length (columns ?F) = 6"
    by simp_all
  ultimately have "zScore (DataFrame ?F) 0 =
          Inr \<lparr>shape = [2, 3],
               data = map (\<lambda>j. fdiv (fsub (data ?X ! j) (nanmean (lane_of ?X 0 j)))
                                   (fadd (nanstd (lane_of ?X 0 j)) (Fin eps)))
                        [0..<6]\<rparr>"
    by (simp only: t)
  then have "zScore (DataFrame ?F) 0
       = Inr \<lparr>shape = [2, 3],
              data = [Fin (- 1 / (1 + eps)), Fin 0, Fin (- 1 / (1 + eps)),
                      Fin (1 / (1 + eps)), Fin 0, Fin (1 / (1 + eps))]\<rparr>"
    using e by (simp add: u l m s fsub_def)
  then show ?thesis
    using r a by (simp add: t)
qed

lemma eval_1d:
  "outer_size \<lparr>shape = [n], data = xs\<rparr> 0 = 1"
  "axis_len \<lparr>shape = [n], data = xs\<rparr> 0 = n"
  "inner_size \<lparr>shape = [n], data = xs\<rparr> 0 = 1"
  "normalize_axis_index 0 (Suc m) = Inr 0"
  by (simp_all add: outer_size_def axis_len_def inner_size_def normalize_axis_index_def)

lemma lane_of_1d:
  assumes "j < length xs"
  shows "lane_of \<lparr>shape = [length xs], data = xs\<rparr> 0 j = xs"
proof -
  have "lane_of \<lparr>shape = [length xs], data = xs\<rparr> 0 j = map (\<lambda>k. xs ! k) [0..<length xs]"
    using assms by (simp add: lane_of_def lane_def eval_1d)
  then show ?thesis
    by (simp only: map_nth)
qed

lemma lane_of_1d_n:
  assumes "length xs = n" and "j < n"
  shows "lane_of \<lparr>shape = [n], data = xs\<rparr> 0 j = xs"
  using lane_of_1d [of j xs] assms by simp

lemma zScore_1d_length:
  "zScore (Array \<lparr>shape = [length xs], data = xs\<rparr>) 0 =
     Inr \<lparr>shape = [length xs],
          data = map (\<lambda>x. fdiv (fsub x (nanmean xs)) (fadd (nanstd xs) (Fin eps))) xs\<rparr>"
proof -
  let ?X = "\<lparr>shape = [length xs], data = xs\<rparr>"
  have "wf ?X" by (simp add: wf_def)
  moreover have "normalize_axis_index 0 (length (shape ?X)) = Inr 0"
    by (simp add: normalize_axis_index_def)
  ultimately have "zScore (Array ?X) 0 =
           Inr \<lparr>shape = shape ?X,
                data = map (\<lambda>j. fdiv (fsub (data ?X ! j) (nanmean (lane_of ?X 0 j)))
                                   (fadd (nanstd (lane_of ?X 0 j)) (Fin eps)))
                         [0..<length (data ?X)]\<rparr>"
    by (rule zScore_data)
  moreover have "map (\<lambda>j. fdiv (fsub (data ?X ! j) (nanmean (lane_of ?X 0 j)))
                                   (fadd (nanstd (lane_of ?X 0 j)) (Fin eps)))
                         [0..<length (data ?X)]
          = map (\<lambda>x. fdiv (fsub x (nanmean xs)) (fadd (nanstd xs) (Fin eps))) xs"
    by (rule nth_equalityI) (simp_all add: lane_of_1d)
  ultimately show ?thesis
    by simp
qed

lemma zScore_1d:
  assumes "length xs = n"
  shows "zScore (Array \<lparr>shape = [n], data = xs\<rparr>) 0 =
     Inr \<lparr>shape = [n],
          data = map (\<lambda>x. fdiv (fsub x (nanmean xs)) (fadd (nanstd xs) (Fin eps))) xs\<rparr>"
  using zScore_1d_length [of xs] by (simp only: assms)

lemma lane_1d:
  assumes "length xs = n"
  shows "lane \<lparr>shape = [n], data = xs\<rparr> 0 0 0 = xs"
proof -
  have "lane \<lparr>shape = [n], data = xs\<rparr> 0 0 0 = map (\<lambda>k. xs ! k) [0..<length xs]"
    by (simp add: lane_def eval_1d assms)
  then show ?thesis
    by (simp only: map_nth)
qed

lemma fin_vals_replicate [simp]: "fin_vals (replicate n (Fin v)) = replicate n v"
  by (induction n) simp_all

lemma no_inf_replicate [simp]: "no_inf (replicate n (Fin v))"
  by (induction n) simp_all

lemma nanmean_replicate:
  assumes "0 < n"
  shows "nanmean (replicate n (Fin v)) = Fin v"
  using assms by (simp add: nanmean_no_inf mean_r_def sum_list_replicate)

lemma nanstd_replicate:
  assumes "0 < n"
  shows "nanstd (replicate n (Fin v)) = Fin 0"
proof -
  have "mean_r (replicate n v) = v"
    using assms by (simp add: mean_r_def sum_list_replicate)
  then have "var_r (replicate n v) = 0"
    by (simp add: var_r_def sum_list_replicate)
  then show ?thesis
    using assms by (simp add: nanstd_no_inf std_r_def)
qed

lemma lane_of_is_lane:
  assumes "j < outer_size X d * axis_len X d * inner_size X d"
  shows "\<exists>out inn. out < outer_size X d \<and> inn < inner_size X d \<and> lane_of X d j = lane X d out inn"
  unfolding lane_of_def using reduced_index(4) [OF assms] reduced_index(6) [OF assms] by blast

text \<open>
  A 0-dimensional array is reduced over its one element, along axis \<open>0\<close> or \<open>-1\<close>; any
  other axis is refused.
\<close>

lemma zScore_0d:
  "zScore (Array \<lparr>shape = [], data = [Fin 3]\<rparr>) 0 = Inr \<lparr>shape = [], data = [Fin 0]\<rparr>"
  "zScore (Array \<lparr>shape = [], data = [Fin 3]\<rparr>) (- 1) = Inr \<lparr>shape = [], data = [Fin 0]\<rparr>"
  "zScore (Array \<lparr>shape = [], data = [Fin 3]\<rparr>) 1 = Inl AxisError"
proof -
  let ?X = "\<lparr>shape = [], data = [Fin 3]\<rparr>"
  have w: "wf ?X" by (simp add: wf_def)
  have g: "axis_len ?X 0 = 1" "inner_size ?X 0 = 1"
    by (simp_all add: axis_len_def inner_size_def)
  have l: "lane_of ?X 0 0 = [Fin 3]"
    by (simp add: lane_of_def lane_def g)
  have m: "nanmean [Fin 3] = Fin 3"
    by (simp add: nanmean_def replace_nan_def count_valid_def fsum_def)
  then have s: "nanstd [Fin 3] = Fin 0"
    by (simp add: nanstd_def nanvar_def fsub_def count_valid_def fsum_def Let_def)
  have e: "eps \<noteq> 0" using eps_pos by simp
  have "normalize_axis_index 0 (length (shape ?X)) = Inr 0"
    by (simp add: normalize_axis_index_def)
  from zScore_data [OF w this] e
  show "zScore (Array ?X) 0 = Inr \<lparr>shape = [], data = [Fin 0]\<rparr>"
    by (simp add: l m s fsub_def)
  have "normalize_axis_index (- 1) (length (shape ?X)) = Inr 0"
    by (simp add: normalize_axis_index_def)
  from zScore_data [OF w this] e
  show "zScore (Array ?X) (- 1) = Inr \<lparr>shape = [], data = [Fin 0]\<rparr>"
    by (simp add: l m s fsub_def)
  show "zScore (Array ?X) 1 = Inl AxisError"
    by (simp add: zScore_def as_array_def np_nanmean_def normalize_axis_index_def)
qed

section \<open>The normalizer: its divisor\<close>

lemma fadd_is_fin: "is_fin (fadd a b) \<Longrightarrow> is_fin a \<and> is_fin b"
  by (cases a; cases b) simp_all

lemma foldl_fadd_fin:
  "is_fin (foldl fadd a ys) \<Longrightarrow> is_fin a \<and> list_all is_fin ys"
proof (induction ys arbitrary: a)
  case Nil
  then show ?case by simp
next
  case (Cons y ys)
  then have "is_fin (fadd a y) \<and> list_all is_fin ys" by simp
  then show ?case using fadd_is_fin [of a y] by simp
qed

lemma fdiv_by_count:
  assumes "is_fin (fdiv t (Fin (real n)))"
  shows "0 < n \<and> is_fin t"
  using assms by (cases t; cases "n = 0") (simp_all split: if_splits)

lemma replace_nan_fin:
  "list_all is_fin (replace_nan xs) \<Longrightarrow> no_inf xs"
proof (induction xs)
  case Nil
  then show ?case by simp
next
  case (Cons x xs)
  then show ?case by (cases x) (simp_all add: replace_nan_def)
qed

text \<open>
  A lane with a finite mean has an entry that is not NaN and holds no infinity, so its
  standard deviation is a finite number that is not negative.
\<close>

lemma nanstd_of_finite_mean:
  assumes "is_fin (nanmean xs)"
  shows "\<exists>s. nanstd xs = Fin s \<and> 0 \<le> s"
proof -
  have cnt: "0 < count_valid xs" and "is_fin (fsum (replace_nan xs))"
    using assms fdiv_by_count [of "fsum (replace_nan xs)" "count_valid xs"]
    by (simp_all add: nanmean_def)
  then have "list_all is_fin (replace_nan xs)"
    using foldl_fadd_fin [of "Fin 0" "replace_nan xs"] by (simp add: fsum_def)
  then have ni: "no_inf xs"
    by (rule replace_nan_fin)
  then have "fin_vals xs \<noteq> []"
    using cnt by (auto simp: count_valid_fin_vals)
  with ni have "nanstd xs = Fin (std_r (fin_vals xs))"
    by (rule nanstd_no_inf)
  then show ?thesis
    using std_r_nonneg by blast
qed

text \<open>
  The standard deviation of any lane is the square root of a mean of squares: it is
  never negative, whatever the lane holds, and the divisor is never zero.
\<close>

lemma not_neg_square: "not_neg (fmul a a)"
  by (cases a) simp_all

lemma not_neg_fadd: "not_neg a \<Longrightarrow> not_neg b \<Longrightarrow> not_neg (fadd a b)"
  by (cases a; cases b) simp_all

lemma not_neg_foldl:
  "not_neg a \<Longrightarrow> list_all not_neg ys \<Longrightarrow> not_neg (foldl fadd a ys)"
proof (induction ys arbitrary: a)
  case Nil
  then show ?case by simp
next
  case (Cons y ys)
  then have "not_neg (fadd a y)" and "list_all not_neg ys"
    using not_neg_fadd [of a y] by simp_all
  then show ?case
    using Cons.IH [of "fadd a y"] by simp
qed

lemma not_neg_fdiv: "not_neg t \<Longrightarrow> not_neg (fdiv t (Fin (real n)))"
  by (cases t) simp_all

lemma not_neg_fsqrt: "not_neg t \<Longrightarrow> not_neg (fsqrt t)"
  by (cases t) simp_all

lemma not_neg_nanstd: "not_neg (nanstd xs)"
proof -
  let ?sqr = "map (\<lambda>a. fmul a a) (map (\<lambda>x. if is_nan x then Fin 0 else fsub x (nanmean xs)) xs)"
  have "list_all not_neg ?sqr"
    by (simp add: list_all_iff not_neg_square del: map_map)
  then have "not_neg (fsum ?sqr)"
    unfolding fsum_def by (intro not_neg_foldl) simp_all
  then have "not_neg (fdiv (fsum ?sqr) (Fin (real (count_valid xs))))"
    by (rule not_neg_fdiv)
  then have "not_neg (nanvar xs)"
    by (simp add: nanvar_def Let_def del: map_map)
  then show ?thesis
    unfolding nanstd_def by (rule not_neg_fsqrt)
qed

lemma divisor_not_zero:
  assumes "not_neg s"
  shows "fl_pos (fadd s (Fin eps)) \<or> is_nan (fadd s (Fin eps))"
  using assms eps_pos by (cases s) simp_all

text \<open>
  C4, as amended. For every array \<open>X\<close> and in-range axis \<open>d\<close>, constant along the axis or
  not, \<open>zScore\<close> returns an array of the shape of \<open>X\<close> and never divides by zero: on
  every lane the divisor \<open>nanstd + 1e-7\<close> is strictly positive, or NaN, and it is
  strictly positive on every lane whose mean is finite. At every position whose entry is
  finite and equal to the mean computed for its lane, as on a lane that repeats one
  finite value and whose mean comes out as that value, the output is zero. An all-zero
  output is not promised for every constant lane.
\<close>

theorem zScore_constant_axis:
  assumes "wf X" and "normalize_axis_index axis (length (shape X)) = Inr d"
  shows "\<exists>Y. zScore (Array X) axis = Inr Y \<and> shape Y = shape X
           \<and> length (data Y) = length (data X)
           \<and> (\<forall>j<length (data X).
                 (fl_pos (fadd (nanstd (lane_of X d j)) (Fin eps))
                    \<or> is_nan (fadd (nanstd (lane_of X d j)) (Fin eps)))
                 \<and> (is_fin (nanmean (lane_of X d j)) \<longrightarrow>
                      fl_pos (fadd (nanstd (lane_of X d j)) (Fin eps)))
                 \<and> (is_fin (data X ! j) \<and> nanmean (lane_of X d j) = data X ! j \<longrightarrow>
                      data Y ! j = Fin 0))"
proof -
  note z = zScore_lanes [OF assms]
  let ?Y = "\<lparr>shape = shape X,
             data = map (\<lambda>j. fdiv (fsub (data X ! j) (nanmean (lane_of X d j)))
                                (fadd (nanstd (lane_of X d j)) (Fin eps)))
                      [0..<length (data X)]\<rparr>"
  have any: "fl_pos (fadd (nanstd (lane_of X d j)) (Fin eps))
               \<or> is_nan (fadd (nanstd (lane_of X d j)) (Fin eps))" for j
    using not_neg_nanstd by (rule divisor_not_zero)
  have pos: "fl_pos (fadd (nanstd (lane_of X d j)) (Fin eps))"
    if fm: "is_fin (nanmean (lane_of X d j))" for j
  proof -
    obtain s where s: "nanstd (lane_of X d j) = Fin s" "0 \<le> s"
      using nanstd_of_finite_mean [OF fm] by blast
    have "0 < s + eps"
      using s(2) eps_pos by linarith
    then show ?thesis
      by (simp add: s(1))
  qed
  have zero: "data ?Y ! j = Fin 0"
    if j: "j < length (data X)" and f: "is_fin (data X ! j)"
      and m: "nanmean (lane_of X d j) = data X ! j" for j
  proof -
    obtain r where r: "data X ! j = Fin r"
      using f by (cases "data X ! j") simp_all
    have "is_fin (nanmean (lane_of X d j))"
      by (simp add: m r)
    then obtain s where s: "nanstd (lane_of X d j) = Fin s" "0 \<le> s"
      using nanstd_of_finite_mean by blast
    have "0 < s + eps"
      using s(2) eps_pos by linarith
    then show ?thesis
      using j by (simp add: m r s(1) fsub_def del: upt_Suc)
  qed
  show ?thesis
    using z(1) any pos zero by (intro exI [of _ ?Y]) simp
qed

theorem zScore_constant_axis_witness:
  "wf \<lparr>shape = [2], data = [Fin 5, Fin 5]\<rparr>
   \<and> normalize_axis_index 0 (length (shape \<lparr>shape = [2], data = [Fin 5, Fin 5]\<rparr>)) = Inr 0
   \<and> is_fin (data \<lparr>shape = [2], data = [Fin 5, Fin 5]\<rparr> ! 0)
   \<and> nanmean (lane_of \<lparr>shape = [2], data = [Fin 5, Fin 5]\<rparr> 0 0)
       = data \<lparr>shape = [2], data = [Fin 5, Fin 5]\<rparr> ! 0
   \<and> nanmean (lane_of \<lparr>shape = [2], data = [Fin 5, Fin 5]\<rparr> 0 1)
       = data \<lparr>shape = [2], data = [Fin 5, Fin 5]\<rparr> ! 1
   \<and> is_fin (nanmean (lane_of \<lparr>shape = [2], data = [Fin 5, Fin 5]\<rparr> 0 0))
   \<and> fl_pos (fadd (nanstd (lane_of \<lparr>shape = [2], data = [Fin 5, Fin 5]\<rparr> 0 0)) (Fin eps))
   \<and> (\<exists>Y. zScore (Array \<lparr>shape = [2], data = [Fin 5, Fin 5]\<rparr>) 0 = Inr Y
         \<and> shape Y = [2] \<and> length (data Y) = 2 \<and> data Y ! 0 = Fin 0 \<and> data Y ! 1 = Fin 0)"
proof -
  let ?X = "\<lparr>shape = [2], data = [Fin 5, Fin 5]\<rparr>"
  have w: "wf ?X" by (simp add: wf_def)
  have a: "normalize_axis_index 0 (length (shape ?X)) = Inr 0"
    by (simp add: eval_1d)
  have l: "lane_of ?X 0 0 = [Fin 5, Fin 5]" "lane_of ?X 0 (Suc 0) = [Fin 5, Fin 5]"
    by (simp_all add: lane_of_1d_n)
  have m: "nanmean [Fin 5, Fin 5] = Fin 5"
    by (simp add: nanmean_def replace_nan_def count_valid_def fsum_def)
  obtain Y where Y: "zScore (Array ?X) 0 = Inr Y" "shape Y = shape ?X"
      "length (data Y) = length (data ?X)"
    and el: "\<forall>j<length (data ?X).
                 (fl_pos (fadd (nanstd (lane_of ?X 0 j)) (Fin eps))
                    \<or> is_nan (fadd (nanstd (lane_of ?X 0 j)) (Fin eps)))
                 \<and> (is_fin (nanmean (lane_of ?X 0 j)) \<longrightarrow>
                      fl_pos (fadd (nanstd (lane_of ?X 0 j)) (Fin eps)))
                 \<and> (is_fin (data ?X ! j) \<and> nanmean (lane_of ?X 0 j) = data ?X ! j \<longrightarrow>
                      data Y ! j = Fin 0)"
    using zScore_constant_axis [OF w a] by blast
  have "data Y ! 0 = Fin 0"
    using el [rule_format, of 0] by (simp add: l m)
  moreover have "data Y ! 1 = Fin 0"
    using el [rule_format, of 1] by (simp add: l m)
  moreover have "fl_pos (fadd (nanstd [Fin 5, Fin 5]) (Fin eps))"
    using el [rule_format, of 0] by (simp add: l m)
  ultimately show ?thesis
    using w a Y by (simp add: l m)
qed

text \<open>
  The claim as stated asks only for a repeated value that is not missing. An array that
  repeats \<open>+\<infinity>\<close> is constant along its axis and has no missing value, yet
  \<open>\<infinity> - \<infinity>\<close> is NaN and the result is all NaN, not all zero.
\<close>

theorem zScore_constant_axis_counterexample:
  "lane \<lparr>shape = [2], data = [PInf, PInf]\<rparr> 0 0 0 = replicate 2 PInf
   \<and> \<not> is_nan PInf
   \<and> zScore (Array \<lparr>shape = [2], data = [PInf, PInf]\<rparr>) 0
       = Inr \<lparr>shape = [2], data = [NaN, NaN]\<rparr>"
proof -
  have "nanmean [PInf, PInf] = PInf"
    by (simp add: nanmean_def replace_nan_def count_valid_def fsum_def)
  then have "nanstd [PInf, PInf] = NaN"
    by (simp add: nanstd_def nanvar_def fsub_def count_valid_def fsum_def)
  then show ?thesis
    using zScore_1d [of "[PInf, PInf]" 2] by (simp add: lane_1d eval_nat_numeral)
qed




section \<open>The normalizer and missing values\<close>

lemma zScore_elem_keeps_NaN:
  assumes "is_nan x"
  shows "is_nan (fdiv (fsub x m) t)"
  using assms by (cases x) simp_all

lemma zScore_elem_not_NaN:
  assumes "\<not> is_nan x" and "is_fin m" and "is_fin s" and "not_neg s"
  shows "\<not> is_nan (fdiv (fsub x m) (fadd s (Fin eps)))"
proof -
  obtain a where a: "m = Fin a"
    using assms(2) by (cases m) simp_all
  obtain b where b: "s = Fin b" "0 \<le> b"
    using assms(3,4) by (cases s) simp_all
  have "0 < b + eps"
    using b(2) eps_pos by linarith
  then show ?thesis
    using assms(1) by (cases x) (simp_all add: a b(1) fsub_def)
qed




section \<open>The normalizer: mean and standard deviation of the output\<close>

lemma fsum_zeros: "fsum (replicate n (Fin 0)) = Fin 0"
  unfolding fsum_def by (induction n) simp_all

lemma np_mean_zeros:
  assumes "0 < n"
  shows "np_mean (replicate n (Fin 0)) = Fin 0"
  using assms by (simp add: np_mean_def fsum_zeros)

lemma np_std_zeros:
  assumes "0 < n"
  shows "np_std (replicate n (Fin 0)) = Fin 0"
  using assms by (simp add: np_std_def np_mean_zeros fsum_zeros)




end
